theory Spec2Isabelle
  imports Main
begin

section \<open>The connection cache of the database helper\<close>

text \<open>
  The helper keeps one record \<open>cached\<close> with two slots, \<open>conn\<close> and \<open>promise\<close>, and one
  asynchronous function \<open>connectToDatabase\<close>. JavaScript runs it on a single thread: a
  call executes without interruption up to its only \<open>await\<close>, and its continuation
  executes without interruption once the awaited promise is settled. The embedding
  therefore has two atomic pieces of code, the part before the \<open>await\<close> and the part
  after it, and a process state on which they act.
\<close>

subsection \<open>Values\<close>

text \<open>Object identities: a \<open>Mongoose\<close> client and a promise are references.\<close>

type_synonym Mongoose = nat
type_synonym promise_ref = nat

text \<open>
  What can be thrown: \<open>new Error(msg)\<close>, or whatever value the driver rejects its
  promise with (opaque to the helper).
\<close>

datatype js_error = Error string | Reason nat

datatype promise_state = Pending | Fulfilled Mongoose | Rejected js_error

text \<open>\<open>interface MongooseConnection\<close>: both slots are nullable.\<close>

record MongooseConnection =
  conn :: "Mongoose option"
  promise :: "promise_ref option"

text \<open>The options object literal passed to \<open>mongoose.connect\<close>.\<close>

record ConnectOptions =
  dbName :: string
  bufferCommands :: bool

text \<open>
  One invocation of the asynchronous function: suspended at the \<open>await\<close> on a promise,
  returned a client, or threw.
\<close>

datatype invocation = Awaiting promise_ref | Returned Mongoose | Threw js_error

text \<open>
  The process: the environment variable as it is now, the module constant
  \<open>MONGODB_URL\<close>, the cache record, the promises created so far (a promise reference
  is an index into \<open>heap\<close>), the log of the calls made to \<open>mongoose.connect\<close> with their
  arguments, and the invocations of \<open>connectToDatabase\<close> in call order.
\<close>

record process =
  env_MONGODB_URL :: "string option"
  MONGODB_URL :: "string option"
  cached :: MongooseConnection
  heap :: "promise_state list"
  connect_log :: "(string \<times> ConnectOptions) list"
  calls :: "invocation list"

subsection \<open>Module initialisation\<close>

text \<open>
  \<open>let cached = global.mongoose; if (!cached) cached = global.mongoose = {conn: null,
  promise: null}\<close>: an existing record is kept, a missing one is created empty.
\<close>

definition initial_cache :: "MongooseConnection option \<Rightarrow> MongooseConnection" where
  "initial_cache g =
     (case g of
        Some c \<Rightarrow> c
      | None \<Rightarrow> \<lparr>conn = None, promise = None\<rparr>)"

text \<open>
  A fresh process loading the module: \<open>const MONGODB_URL = process.env.MONGODB_URL\<close>
  copies the variable once, and the global slot is still undefined.
\<close>

definition boot :: "string option \<Rightarrow> process" where
  "boot env =
     \<lparr>env_MONGODB_URL = env,
      MONGODB_URL = env,
      cached = initial_cache None,
      heap = [],
      connect_log = [],
      calls = []\<rparr>"

subsection \<open>The function\<close>

text \<open>\<open>!MONGODB_URL\<close>: undefined and the empty string are falsy.\<close>

fun falsy :: "string option \<Rightarrow> bool" where
  "falsy None = True"
| "falsy (Some u) = (u = [])"

definition connect_options :: ConnectOptions where
  "connect_options = \<lparr>dbName = ''Imaginify'', bufferCommands = False\<rparr>"

text \<open>
  The external collaborator \<open>mongoose.connect(uri, options)\<close>, of type
  \<open>Promise<Mongoose>\<close>: it hands back a new pending promise, which the driver settles
  later. The call and its arguments are logged.
\<close>

definition mongoose_connect ::
    "string \<Rightarrow> ConnectOptions \<Rightarrow> process \<Rightarrow> promise_ref \<times> process" where
  "mongoose_connect uri opts s =
     (length (heap s),
      s\<lparr>heap := heap s @ [Pending], connect_log := connect_log s @ [(uri, opts)]\<rparr>)"

text \<open>
  \<open>connectToDatabase\<close> up to its \<open>await\<close>: the cached client is returned at once; a
  falsy \<open>MONGODB_URL\<close> throws; otherwise \<open>cached.promise = cached.promise ||
  mongoose.connect(...)\<close> and the invocation suspends on \<open>cached.promise\<close>.
\<close>

definition connectToDatabase :: "process \<Rightarrow> process" where
  "connectToDatabase s =
     (case conn (cached s) of
        Some c \<Rightarrow> s\<lparr>calls := calls s @ [Returned c]\<rparr>
      | None \<Rightarrow>
          if falsy (MONGODB_URL s)
          then s\<lparr>calls := calls s @ [Threw (Error ''Missing MONGODB_URL'')]\<rparr>
          else
            let (p, s1) =
                  (case promise (cached s) of
                     Some q \<Rightarrow> (q, s)
                   | None \<Rightarrow> mongoose_connect (the (MONGODB_URL s)) connect_options s);
                s2 = s1\<lparr>cached := (cached s1)\<lparr>promise := Some p\<rparr>\<rparr>
            in s2\<lparr>calls := calls s2 @ [Awaiting p]\<rparr>)"

text \<open>
  The continuation of invocation \<open>i\<close> after \<open>await\<close>: on a fulfilled promise
  \<open>cached.conn = <value>; return cached.conn\<close>; on a rejected one the \<open>await\<close> throws
  the rejection value and the assignment is not executed. It cannot run while the promise
  is pending, or for an invocation that is not suspended.
\<close>

definition resume :: "nat \<Rightarrow> process \<Rightarrow> process option" where
  "resume i s =
     (if i < length (calls s) then
        (case calls s ! i of
           Awaiting p \<Rightarrow>
             if p < length (heap s) then
               (case heap s ! p of
                  Pending \<Rightarrow> None
                | Fulfilled c \<Rightarrow>
                    (let s1 = s\<lparr>cached := (cached s)\<lparr>conn := Some c\<rparr>\<rparr>
                     in Some (s1\<lparr>calls := (calls s1)[i := Returned (the (conn (cached s1)))]\<rparr>))
                | Rejected e \<Rightarrow> Some (s\<lparr>calls := (calls s)[i := Threw e]\<rparr>))
             else None
         | Returned c \<Rightarrow> None
         | Threw e \<Rightarrow> None)
      else None)"

subsection \<open>The environment and runs\<close>

text \<open>
  The driver settles a pending promise once, with a client or with a rejection value.
\<close>

definition settle :: "promise_ref \<Rightarrow> js_error + Mongoose \<Rightarrow> process \<Rightarrow> process option" where
  "settle p r s =
     (if p < length (heap s) \<and> heap s ! p = Pending
      then Some (s\<lparr>heap := (heap s)[p := (case r of Inl e \<Rightarrow> Rejected e | Inr c \<Rightarrow> Fulfilled c)]\<rparr>)
      else None)"

text \<open>
  What can happen in the process: a call of \<open>connectToDatabase\<close>, the driver settling a
  promise, a suspended invocation resuming, and somebody assigning
  \<open>process.env.MONGODB_URL\<close>.
\<close>

datatype event =
    Call
  | Settle promise_ref "js_error + Mongoose"
  | Resume nat
  | SetEnv "string option"

fun fire :: "event \<Rightarrow> process \<Rightarrow> process option" where
  "fire Call s = Some (connectToDatabase s)"
| "fire (Settle p r) s = settle p r s"
| "fire (Resume i) s = resume i s"
| "fire (SetEnv v) s = Some (s\<lparr>env_MONGODB_URL := v\<rparr>)"

fun run :: "event list \<Rightarrow> process \<Rightarrow> process option" where
  "run [] s = Some s"
| "run (e # es) s = (case fire e s of None \<Rightarrow> None | Some s' \<Rightarrow> run es s')"

fun is_SetEnv :: "event \<Rightarrow> bool" where
  "is_SetEnv (SetEnv v) = True"
| "is_SetEnv e = False"

subsection \<open>The shape of every reachable state\<close>

text \<open>
  In a process booted with \<open>env\<close>: the module constant is \<open>env\<close>; while no promise is
  recorded nothing has been created; a recorded promise is the only promise there is,
  made by the only call of \<open>mongoose.connect\<close>; every suspended invocation waits for the
  recorded promise; a cached client is the value of that promise.
\<close>

definition consistent :: "string option \<Rightarrow> process \<Rightarrow> bool" where
  "consistent env s \<longleftrightarrow>
     MONGODB_URL s = env \<and>
     (promise (cached s) = None \<longrightarrow>
        conn (cached s) = None \<and> heap s = [] \<and> connect_log s = []) \<and>
     (\<forall>p. promise (cached s) = Some p \<longrightarrow>
        p = 0 \<and> length (heap s) = 1 \<and> \<not> falsy env \<and>
        connect_log s = [(the env, connect_options)]) \<and>
     (\<forall>q. Awaiting q \<in> set (calls s) \<longrightarrow> promise (cached s) = Some q) \<and>
     (\<forall>c. conn (cached s) = Some c \<longrightarrow> heap s ! 0 = Fulfilled c)"

text \<open>
  With a falsy module constant the process never gets further than the configuration
  check: nothing is cached, nothing was created, and every invocation so far threw the
  configuration error.
\<close>

definition never_configured :: "process \<Rightarrow> bool" where
  "never_configured s \<longleftrightarrow>
     falsy (MONGODB_URL s) \<and>
     cached s = \<lparr>conn = None, promise = None\<rparr> \<and>
     heap s = [] \<and> connect_log s = [] \<and>
     set (calls s) \<subseteq> {Threw (Error ''Missing MONGODB_URL'')}"

text \<open>The process as the helper sees it: the present value of the variable blanked.\<close>

definition forget_env :: "process \<Rightarrow> process" where
  "forget_env s = s\<lparr>env_MONGODB_URL := None\<rparr>"

subsection \<open>The four ways through the synchronous part\<close>

lemma call_cached:
  "conn (cached s) = Some c \<Longrightarrow> connectToDatabase s = s\<lparr>calls := calls s @ [Returned c]\<rparr>"
  by (simp add: connectToDatabase_def)

lemma call_missing:
  "conn (cached s) = None \<Longrightarrow> falsy (MONGODB_URL s) \<Longrightarrow>
   connectToDatabase s = s\<lparr>calls := calls s @ [Threw (Error ''Missing MONGODB_URL'')]\<rparr>"
  by (simp add: connectToDatabase_def)

lemma call_join:
  "conn (cached s) = None \<Longrightarrow> \<not> falsy (MONGODB_URL s) \<Longrightarrow> promise (cached s) = Some p \<Longrightarrow>
   connectToDatabase s = s\<lparr>calls := calls s @ [Awaiting p]\<rparr>"
  by (simp add: connectToDatabase_def)

lemma call_start:
  "conn (cached s) = None \<Longrightarrow> MONGODB_URL s = Some u \<Longrightarrow> u \<noteq> [] \<Longrightarrow>
   promise (cached s) = None \<Longrightarrow>
   connectToDatabase s =
     s\<lparr>heap := heap s @ [Pending],
       connect_log := connect_log s @ [(u, connect_options)],
       cached := (cached s)\<lparr>promise := Some (length (heap s))\<rparr>,
       calls := calls s @ [Awaiting (length (heap s))]\<rparr>"
  by (simp add: connectToDatabase_def mongoose_connect_def)

subsection \<open>Every run keeps that shape\<close>

lemma consistent_boot: "consistent env (boot env)"
  by (simp add: consistent_def boot_def initial_cache_def)

lemma consistent_call:
  assumes "consistent env s"
  shows "consistent env (connectToDatabase s)"
proof (cases "conn (cached s)")
  case (Some c)
  note eq = call_cached [OF Some]
  from assms Some show ?thesis
    unfolding eq consistent_def by auto
next
  case None
  show ?thesis
  proof (cases "falsy (MONGODB_URL s)")
    case True
    note eq = call_missing [OF None True]
    from assms None show ?thesis
      unfolding eq consistent_def by auto
  next
    case False
    then obtain u where u: "MONGODB_URL s = Some u" "u \<noteq> []"
      by (cases "MONGODB_URL s") auto
    show ?thesis
    proof (cases "promise (cached s)")
      case (Some p)
      note eq = call_join [OF None False Some]
      from assms None Some show ?thesis
        unfolding eq consistent_def by auto
    next
      case np: None
      note eq = call_start [OF None u np]
      from assms None np show ?thesis
        unfolding eq consistent_def by (auto simp: u)
    qed
  qed
qed

lemma consistent_settle:
  assumes "consistent env s" and "settle p r s = Some s'"
  shows "consistent env s'"
  using assms
  by (auto simp: settle_def consistent_def split: option.splits if_splits sum.splits)

lemma consistent_resume:
  assumes "consistent env s" and "resume i s = Some s'"
  shows "consistent env s'"
  using assms
  by (auto simp: resume_def consistent_def Let_def split: option.splits if_splits invocation.splits promise_state.splits dest!: set_update_subset_insert[THEN subsetD])

lemma consistent_fire:
  assumes "consistent env s" and "fire e s = Some s'"
  shows "consistent env s'"
proof (cases e)
  case Call
  with assms consistent_call show ?thesis by auto
next
  case (Settle p r)
  with assms consistent_settle show ?thesis by auto
next
  case (Resume i)
  with assms consistent_resume show ?thesis by auto
next
  case (SetEnv v)
  with assms show ?thesis by (auto simp: consistent_def)
qed

lemma consistent_run:
  "consistent env s \<Longrightarrow> run es s = Some s' \<Longrightarrow> consistent env s'"
proof (induction es arbitrary: s)
  case Nil
  then show ?case by simp
next
  case (Cons e es)
  then show ?case by (auto split: option.splits dest: consistent_fire)
qed

lemma run_append:
  "run (es @ fs) s = (case run es s of None \<Rightarrow> None | Some t \<Rightarrow> run fs t)"
  by (induction es arbitrary: s) (auto split: option.splits)

subsection \<open>What a recorded promise fixes\<close>

text \<open>
  Once a promise is recorded it stays recorded, \<open>mongoose.connect\<close> is not called
  again, a settled promise keeps its outcome, and a cached client stays the same.
\<close>

lemma promise_kept_call:
  "promise (cached s) = Some p \<Longrightarrow> promise (cached (connectToDatabase s)) = Some p"
  by (simp add: connectToDatabase_def split: option.splits)

lemma promise_kept_fire:
  assumes "fire e s = Some t" and "promise (cached s) = Some p"
  shows "promise (cached t) = Some p"
proof (cases e)
  case Call
  with assms promise_kept_call show ?thesis by auto
next
  case (Settle q r)
  with assms show ?thesis by (auto simp: settle_def split: if_splits)
next
  case (Resume i)
  with assms show ?thesis
    by (auto simp: resume_def Let_def split: if_splits invocation.splits promise_state.splits)
next
  case (SetEnv v)
  with assms show ?thesis by auto
qed

lemma promise_kept_run:
  "run es s = Some t \<Longrightarrow> promise (cached s) = Some p \<Longrightarrow> promise (cached t) = Some p"
  by (induction es arbitrary: s) (auto split: option.splits dest: promise_kept_fire)

lemma log_kept_call:
  "promise (cached s) = Some p \<Longrightarrow> connect_log (connectToDatabase s) = connect_log s"
  by (simp add: connectToDatabase_def split: option.splits)

lemma heap_kept_call:
  "promise (cached s) = Some p \<Longrightarrow> heap (connectToDatabase s) = heap s"
  by (simp add: connectToDatabase_def split: option.splits)

lemma log_kept_fire:
  assumes "fire e s = Some t" and "promise (cached s) = Some p"
  shows "connect_log t = connect_log s"
proof (cases e)
  case Call
  with assms log_kept_call show ?thesis by auto
next
  case (Settle q r)
  with assms show ?thesis by (auto simp: settle_def split: if_splits)
next
  case (Resume i)
  with assms show ?thesis
    by (auto simp: resume_def Let_def split: if_splits invocation.splits promise_state.splits)
next
  case (SetEnv v)
  with assms show ?thesis by auto
qed

lemma log_kept_run:
  "run es s = Some t \<Longrightarrow> promise (cached s) = Some p \<Longrightarrow> connect_log t = connect_log s"
proof (induction es arbitrary: s)
  case Nil
  then show ?case by simp
next
  case (Cons e es)
  then obtain m where m: "fire e s = Some m" "run es m = Some t"
    by (auto split: option.splits)
  from m(1) Cons.prems(2) have "promise (cached m) = Some p" "connect_log m = connect_log s"
    by (rule promise_kept_fire, rule log_kept_fire)
  with Cons.IH [OF m(2)] show ?case by simp
qed

lemma settled_kept_fire:
  assumes "fire e s = Some t" and "promise (cached s) = Some p" and "heap s ! p \<noteq> Pending"
  shows "heap t ! p = heap s ! p"
proof (cases e)
  case Call
  with assms heap_kept_call show ?thesis by auto
next
  case (Settle q r)
  with assms have "q \<noteq> p" "t = s\<lparr>heap := (heap s)[q := (case r of Inl x \<Rightarrow> Rejected x | Inr c \<Rightarrow> Fulfilled c)]\<rparr>"
    by (auto simp: settle_def split: if_splits)
  then show ?thesis by simp
next
  case (Resume i)
  with assms show ?thesis
    by (auto simp: resume_def Let_def split: if_splits invocation.splits promise_state.splits)
next
  case (SetEnv v)
  with assms show ?thesis by auto
qed

lemma settled_kept_run:
  "run es s = Some t \<Longrightarrow> promise (cached s) = Some p \<Longrightarrow> heap s ! p \<noteq> Pending \<Longrightarrow>
   heap t ! p = heap s ! p"
proof (induction es arbitrary: s)
  case Nil
  then show ?case by simp
next
  case (Cons e es)
  then obtain m where m: "fire e s = Some m" "run es m = Some t"
    by (auto split: option.splits)
  from m(1) Cons.prems(2) have pm: "promise (cached m) = Some p"
    by (rule promise_kept_fire)
  from m(1) Cons.prems(2,3) have hm: "heap m ! p = heap s ! p"
    by (rule settled_kept_fire)
  with Cons.IH [OF m(2) pm] Cons.prems(3) show ?case by simp
qed

lemma conn_kept_fire:
  assumes "consistent env s" and "fire e s = Some t" and "conn (cached s) = Some c"
  shows "conn (cached t) = Some c"
proof (cases e)
  case Call
  with assms show ?thesis by (auto simp: call_cached)
next
  case (Settle q r)
  with assms show ?thesis by (auto simp: settle_def split: if_splits)
next
  case (Resume i)
  with assms(2) obtain q where q: "i < length (calls s)" "calls s ! i = Awaiting q"
    by (auto simp: resume_def split: if_splits invocation.splits)
  then have "Awaiting q \<in> set (calls s)" by (metis nth_mem)
  with assms(1,3) have "q = 0" "heap s ! 0 = Fulfilled c"
    by (auto simp: consistent_def)
  with assms(2) Resume q show ?thesis
    by (auto simp: resume_def Let_def split: if_splits)
next
  case (SetEnv v)
  with assms show ?thesis by auto
qed

lemma conn_kept_run:
  "consistent env s \<Longrightarrow> run es s = Some t \<Longrightarrow> conn (cached s) = Some c \<Longrightarrow>
   conn (cached t) = Some c"
proof (induction es arbitrary: s)
  case Nil
  then show ?case by simp
next
  case (Cons e es)
  then obtain m where m: "fire e s = Some m" "run es m = Some t"
    by (auto split: option.splits)
  from Cons.prems(1) m(1) have "consistent env m" by (rule consistent_fire)
  moreover from Cons.prems(1) m(1) Cons.prems(3) have "conn (cached m) = Some c"
    by (rule conn_kept_fire)
  ultimately show ?case using Cons.IH m(2) by blast
qed

subsection \<open>A process without a connection string\<close>

lemma never_configured_boot: "falsy env \<Longrightarrow> never_configured (boot env)"
  by (simp add: never_configured_def boot_def initial_cache_def)

lemma never_configured_call:
  assumes "never_configured s"
  shows "connectToDatabase s = s\<lparr>calls := calls s @ [Threw (Error ''Missing MONGODB_URL'')]\<rparr>"
  using assms by (intro call_missing) (simp_all add: never_configured_def)

lemma never_configured_fire:
  assumes "never_configured s" and "fire e s = Some t"
  shows "never_configured t"
proof (cases e)
  case Call
  with assms(2) have "t = s\<lparr>calls := calls s @ [Threw (Error ''Missing MONGODB_URL'')]\<rparr>"
    by (simp add: never_configured_call [OF assms(1)])
  with assms(1) show ?thesis by (auto simp: never_configured_def)
next
  case (Settle q r)
  with assms show ?thesis by (auto simp: settle_def never_configured_def split: if_splits)
next
  case (Resume i)
  have "resume i s = None"
  proof (cases "i < length (calls s)")
    case True
    then have "calls s ! i \<in> set (calls s)" by simp
    with assms(1) have "calls s ! i = Threw (Error ''Missing MONGODB_URL'')"
      by (auto simp: never_configured_def)
    with True show ?thesis by (simp add: resume_def)
  next
    case False
    then show ?thesis by (simp add: resume_def)
  qed
  with assms(2) Resume show ?thesis by simp
next
  case (SetEnv v)
  with assms show ?thesis by (auto simp: never_configured_def)
qed

lemma never_configured_run:
  "never_configured s \<Longrightarrow> run es s = Some t \<Longrightarrow> never_configured t"
  by (induction es arbitrary: s) (auto split: option.splits dest: never_configured_fire)

subsection \<open>The variable after module load\<close>

text \<open>
  No code of the helper reads \<open>process.env\<close> after module load, so each event other
  than an assignment to the variable commutes with blanking it.
\<close>

lemma forget_env_call: "connectToDatabase (forget_env s) = forget_env (connectToDatabase s)"
  by (simp add: connectToDatabase_def forget_env_def mongoose_connect_def Let_def
      split: option.splits)

lemma forget_env_fire:
  "\<not> is_SetEnv e \<Longrightarrow> fire e (forget_env s) = map_option forget_env (fire e s)"
proof (cases e)
  case Call
  then show ?thesis by (simp add: forget_env_call)
next
  case (Settle q r)
  then show ?thesis by (simp add: settle_def forget_env_def)
next
  case (Resume i)
  then show ?thesis
    by (simp add: resume_def forget_env_def Let_def
        split: invocation.splits promise_state.splits)
next
  case (SetEnv v)
  assume "\<not> is_SetEnv e"
  with SetEnv show ?thesis by simp
qed

lemma forget_env_SetEnv: "forget_env (s\<lparr>env_MONGODB_URL := v\<rparr>) = forget_env s"
  by (simp add: forget_env_def)

lemma forget_env_run:
  "map_option forget_env (run es s) = run (filter (\<lambda>e. \<not> is_SetEnv e) es) (forget_env s)"
proof (induction es arbitrary: s)
  case Nil
  then show ?case by simp
next
  case (Cons e es)
  show ?case
  proof (cases e)
    case (SetEnv v)
    with Cons.IH [of "s\<lparr>env_MONGODB_URL := v\<rparr>"] show ?thesis
      by (simp add: forget_env_SetEnv)
  next
    case Call
    with Cons.IH show ?thesis by (simp add: forget_env_call)
  next
    case (Settle q r)
    then have ne: "\<not> is_SetEnv e" by simp
    show ?thesis
      using Cons.IH by (cases "fire e s") (simp_all add: ne forget_env_fire [OF ne])
  next
    case (Resume i)
    then have ne: "\<not> is_SetEnv e" by simp
    show ?thesis
      using Cons.IH by (cases "fire e s") (simp_all add: ne forget_env_fire [OF ne])
  qed
qed

subsection \<open>Suspended invocations\<close>

lemma recorded_promise_is_first:
  assumes "consistent env s" and "promise (cached s) = Some p"
  shows "p = 0 \<and> length (heap s) = 1 \<and> \<not> falsy (MONGODB_URL s)"
  using assms by (auto simp: consistent_def)

lemma awaiting_recorded:
  assumes "consistent env s" and "i < length (calls s)" and "calls s ! i = Awaiting q"
  shows "promise (cached s) = Some q"
proof -
  from assms(2,3) have "Awaiting q \<in> set (calls s)" by (metis nth_mem)
  with assms(1) show ?thesis by (simp add: consistent_def)
qed

lemma resume_rejected:
  assumes "i < length (calls s)" and "calls s ! i = Awaiting p" and "p < length (heap s)"
    and "heap s ! p = Rejected x"
  shows "resume i s = Some (s\<lparr>calls := (calls s)[i := Threw x]\<rparr>)"
  using assms by (simp add: resume_def)

section \<open>The claims\<close>

text \<open>
  C1. In every state reached from a fresh process by any interleaving of calls, promise
  settlements and resumptions, \<open>mongoose.connect\<close> has been called at most once. A call
  that does invoke it found the promise slot empty and leaves the new, still pending
  promise in the slot by the time it suspends; and no event replaces a promise that the
  slot holds.
\<close>

theorem connect_at_most_once:
  assumes "run es (boot env) = Some s"
  shows "length (connect_log s) \<le> 1 \<and>
         (connect_log (connectToDatabase s) \<noteq> connect_log s \<longrightarrow>
            promise (cached s) = None \<and>
            promise (cached (connectToDatabase s)) = Some (length (heap s)) \<and>
            heap (connectToDatabase s) ! length (heap s) = Pending) \<and>
         (\<forall>e t p. fire e s = Some t \<longrightarrow> promise (cached s) = Some p \<longrightarrow>
            promise (cached t) = Some p)"
proof -
  from consistent_boot assms have c: "consistent env s" by (rule consistent_run)
  have "length (connect_log s) \<le> 1"
    using c by (cases "promise (cached s)") (auto simp: consistent_def)
  moreover have "promise (cached s) = None \<and>
      promise (cached (connectToDatabase s)) = Some (length (heap s)) \<and>
      heap (connectToDatabase s) ! length (heap s) = Pending"
    if ne: "connect_log (connectToDatabase s) \<noteq> connect_log s"
  proof -
    from ne have n: "conn (cached s) = None"
      by (cases "conn (cached s)") (auto simp: call_cached)
    with ne have f: "\<not> falsy (MONGODB_URL s)" by (auto simp: call_missing)
    with n ne have p: "promise (cached s) = None"
      by (cases "promise (cached s)") (auto simp: call_join)
    from f obtain u where u: "MONGODB_URL s = Some u" "u \<noteq> []"
      by (cases "MONGODB_URL s") auto
    show ?thesis unfolding call_start [OF n u p] using p by simp
  qed
  moreover have "\<forall>e t p. fire e s = Some t \<longrightarrow> promise (cached s) = Some p \<longrightarrow>
      promise (cached t) = Some p"
    using promise_kept_fire by blast
  ultimately show ?thesis by blast
qed

theorem connect_at_most_once_witness:
  "let s = \<lparr>env_MONGODB_URL = Some ''mongodb://db'', MONGODB_URL = Some ''mongodb://db'',
             cached = \<lparr>conn = Some 7, promise = Some 0\<rparr>, heap = [Fulfilled 7],
             connect_log = [(''mongodb://db'', \<lparr>dbName = ''Imaginify'', bufferCommands = False\<rparr>)],
             calls = [Returned 7, Returned 7, Returned 7]\<rparr>
   in run [Call, Call, Settle 0 (Inr 7), Resume 1, Resume 0, Call] (boot (Some ''mongodb://db'')) = Some s \<and>
      length (connect_log s) \<le> 1"
proof -
  have h: "run [Call, Call, Settle 0 (Inr 7), Resume 1, Resume 0, Call] (boot (Some ''mongodb://db'')) =
     Some \<lparr>env_MONGODB_URL = Some ''mongodb://db'', MONGODB_URL = Some ''mongodb://db'',
           cached = \<lparr>conn = Some 7, promise = Some 0\<rparr>, heap = [Fulfilled 7],
           connect_log = [(''mongodb://db'', \<lparr>dbName = ''Imaginify'', bufferCommands = False\<rparr>)],
           calls = [Returned 7, Returned 7, Returned 7]\<rparr>"
    by (simp add: boot_def initial_cache_def connectToDatabase_def mongoose_connect_def
        connect_options_def settle_def resume_def)
  from connect_at_most_once [OF h] h show ?thesis unfolding Let_def by blast
qed

text \<open>
  C2. Once \<open>cached.conn\<close> holds a client \<open>c\<close>, then after anything that happens later a
  call of \<open>connectToDatabase\<close> returns \<open>c\<close> in its synchronous part: the invocation is
  recorded as returned with \<open>c\<close> and nothing else in the process changes, so
  \<open>mongoose.connect\<close> is not called. The same holds whatever the module constant is,
  also when it is absent: the configuration check is not reached.
\<close>

theorem cached_fast_path:
  assumes "run es (boot env) = Some s" and "conn (cached s) = Some c" and "run fs s = Some t"
  shows "connectToDatabase t = t\<lparr>calls := calls t @ [Returned c]\<rparr> \<and>
         (\<forall>u. connectToDatabase (t\<lparr>MONGODB_URL := u\<rparr>) =
                t\<lparr>MONGODB_URL := u, calls := calls t @ [Returned c]\<rparr>)"
proof -
  from consistent_boot assms(1) have "consistent env s" by (rule consistent_run)
  from this assms(3,2) have ct: "conn (cached t) = Some c" by (rule conn_kept_run)
  then have "connectToDatabase t = t\<lparr>calls := calls t @ [Returned c]\<rparr>"
    by (rule call_cached)
  moreover have "connectToDatabase (t\<lparr>MONGODB_URL := u\<rparr>) =
      t\<lparr>MONGODB_URL := u, calls := calls t @ [Returned c]\<rparr>" for u
    using ct call_cached [of "t\<lparr>MONGODB_URL := u\<rparr>" c] by simp
  ultimately show ?thesis by blast
qed

theorem cached_fast_path_witness:
  "let s = \<lparr>env_MONGODB_URL = Some ''mongodb://db'', MONGODB_URL = Some ''mongodb://db'',
             cached = \<lparr>conn = Some 7, promise = Some 0\<rparr>, heap = [Fulfilled 7],
             connect_log = [(''mongodb://db'', \<lparr>dbName = ''Imaginify'', bufferCommands = False\<rparr>)],
             calls = [Awaiting 0, Returned 7]\<rparr>;
       t = s\<lparr>calls := [Returned 7, Returned 7, Returned 7]\<rparr>
   in run [Call, Call, Settle 0 (Inr 7), Resume 1] (boot (Some ''mongodb://db'')) = Some s \<and>
      conn (cached s) = Some 7 \<and>
      run [Call, Resume 0] s = Some t \<and>
      connectToDatabase t = t\<lparr>calls := calls t @ [Returned 7]\<rparr> \<and>
      connectToDatabase (t\<lparr>MONGODB_URL := None\<rparr>) =
        t\<lparr>MONGODB_URL := None, calls := calls t @ [Returned 7]\<rparr>"
proof -
  define s where "s = \<lparr>env_MONGODB_URL = Some ''mongodb://db'', MONGODB_URL = Some ''mongodb://db'',
             cached = \<lparr>conn = Some 7, promise = Some 0\<rparr>, heap = [Fulfilled 7],
             connect_log = [(''mongodb://db'', \<lparr>dbName = ''Imaginify'', bufferCommands = False\<rparr>)],
             calls = [Awaiting 0, Returned 7]\<rparr>"
  define t where "t = s\<lparr>calls := [Returned 7, Returned 7, Returned 7]\<rparr>"
  have h1: "run [Call, Call, Settle 0 (Inr 7), Resume 1] (boot (Some ''mongodb://db'')) = Some s"
    by (simp add: s_def boot_def initial_cache_def connectToDatabase_def mongoose_connect_def
        connect_options_def settle_def resume_def)
  have h2: "conn (cached s) = Some 7" by (simp add: s_def)
  have h3: "run [Call, Resume 0] s = Some t"
    by (simp add: s_def t_def connectToDatabase_def resume_def)
  from cached_fast_path [OF h1 h2 h3] h1 h2 h3 show ?thesis
    unfolding Let_def s_def [symmetric] t_def [symmetric] by blast
qed

text \<open>
  C3. In a process booted without a connection string (absent, or empty, which
  \<open>!MONGODB_URL\<close> treats alike), in every reachable state a call of
  \<open>connectToDatabase\<close> throws \<open>Error('Missing MONGODB_URL')\<close>, every earlier invocation
  has thrown the same error, and \<open>mongoose.connect\<close> has not been called, before or after
  the call.
\<close>

theorem missing_url_every_call_fails:
  assumes "falsy env" and "run es (boot env) = Some s"
  shows "connectToDatabase s = s\<lparr>calls := calls s @ [Threw (Error ''Missing MONGODB_URL'')]\<rparr> \<and>
         connect_log s = [] \<and>
         connect_log (connectToDatabase s) = [] \<and>
         (\<forall>x \<in> set (calls s). x = Threw (Error ''Missing MONGODB_URL''))"
proof -
  from assms(1) have "never_configured (boot env)" by (rule never_configured_boot)
  from this assms(2) have n: "never_configured s" by (rule never_configured_run)
  note eq = never_configured_call [OF n]
  from n show ?thesis unfolding eq by (auto simp: never_configured_def)
qed

theorem missing_url_every_call_fails_witness:
  "let s = \<lparr>env_MONGODB_URL = Some ''mongodb://db'', MONGODB_URL = None,
             cached = \<lparr>conn = None, promise = None\<rparr>, heap = [], connect_log = [],
             calls = [Threw (Error ''Missing MONGODB_URL''), Threw (Error ''Missing MONGODB_URL'')]\<rparr>
   in falsy None \<and>
      run [Call, SetEnv (Some ''mongodb://db''), Call] (boot None) = Some s \<and>
      connectToDatabase s = s\<lparr>calls := calls s @ [Threw (Error ''Missing MONGODB_URL'')]\<rparr> \<and>
      connect_log (connectToDatabase s) = []"
proof -
  define s where "s = \<lparr>env_MONGODB_URL = Some ''mongodb://db'', MONGODB_URL = None,
             cached = \<lparr>conn = None, promise = None\<rparr>, heap = [],
             connect_log = ([] :: (string \<times> ConnectOptions) list),
             calls = [Threw (Error ''Missing MONGODB_URL''), Threw (Error ''Missing MONGODB_URL'')]\<rparr>"
  have h1: "falsy None" by simp
  have h2: "run [Call, SetEnv (Some ''mongodb://db''), Call] (boot None) = Some s"
    by (simp add: s_def boot_def initial_cache_def connectToDatabase_def)
  from missing_url_every_call_fails [OF h1 h2] h1 h2 show ?thesis
    unfolding Let_def s_def [symmetric] by blast
qed

text \<open>
  C4. If the recorded promise is rejected with \<open>x\<close>, then after anything that happens
  later \<open>cached.promise\<close> is still that promise, still rejected with \<open>x\<close>,
  \<open>cached.conn\<close> is null and \<open>mongoose.connect\<close> has not been called again; a new call
  suspends on that same promise, and its resumption throws \<open>x\<close>.
\<close>

theorem failed_attempt_never_cleared:
  assumes "run es (boot env) = Some s"
    and "promise (cached s) = Some p" and "heap s ! p = Rejected x"
    and "run fs s = Some t"
  shows "promise (cached t) = Some p \<and> heap t ! p = Rejected x \<and>
         conn (cached t) = None \<and>
         connect_log t = connect_log s \<and>
         connectToDatabase t = t\<lparr>calls := calls t @ [Awaiting p]\<rparr> \<and>
         resume (length (calls t)) (connectToDatabase t) =
           Some (t\<lparr>calls := calls t @ [Threw x]\<rparr>)"
proof -
  from consistent_boot assms(1) have cs: "consistent env s" by (rule consistent_run)
  from cs assms(4) have ct: "consistent env t" by (rule consistent_run)
  from assms(4,2) have pt: "promise (cached t) = Some p" by (rule promise_kept_run)
  from assms(3) have "heap s ! p \<noteq> Pending" by simp
  with assms(4,2) have "heap t ! p = heap s ! p" by (rule settled_kept_run)
  with assms(3) have ht: "heap t ! p = Rejected x" by simp
  from ct pt have shape: "p = 0" "length (heap t) = 1" "\<not> falsy (MONGODB_URL t)"
    using recorded_promise_is_first by blast+
  have nt: "conn (cached t) = None"
  proof (cases "conn (cached t)")
    case None
    then show ?thesis .
  next
    case (Some c)
    with ct have "heap t ! 0 = Fulfilled c" by (simp add: consistent_def)
    with ht shape(1) show ?thesis by simp
  qed
  from assms(4,2) have lt: "connect_log t = connect_log s" by (rule log_kept_run)
  note eq = call_join [OF nt shape(3) pt]
  have "resume (length (calls t)) (t\<lparr>calls := calls t @ [Awaiting p]\<rparr>) =
      Some (t\<lparr>calls := calls t @ [Threw x]\<rparr>)"
    using ht shape(1,2) by (simp add: resume_def)
  with pt ht nt lt eq show ?thesis by simp
qed

theorem failed_attempt_never_cleared_witness:
  "let s = \<lparr>env_MONGODB_URL = Some ''mongodb://db'', MONGODB_URL = Some ''mongodb://db'',
             cached = \<lparr>conn = None, promise = Some 0\<rparr>, heap = [Rejected (Reason 3)],
             connect_log = [(''mongodb://db'', \<lparr>dbName = ''Imaginify'', bufferCommands = False\<rparr>)],
             calls = [Threw (Reason 3), Awaiting 0]\<rparr>;
       t = s\<lparr>calls := [Threw (Reason 3), Threw (Reason 3), Awaiting 0]\<rparr>
   in run [Call, Call, Settle 0 (Inl (Reason 3)), Resume 0] (boot (Some ''mongodb://db'')) = Some s \<and>
      promise (cached s) = Some 0 \<and> heap s ! 0 = Rejected (Reason 3) \<and>
      run [Resume 1, Call] s = Some t \<and>
      promise (cached t) = Some 0 \<and> heap t ! 0 = Rejected (Reason 3) \<and>
      conn (cached t) = None \<and> connect_log t = connect_log s \<and>
      connectToDatabase t = t\<lparr>calls := calls t @ [Awaiting 0]\<rparr> \<and>
      resume (length (calls t)) (connectToDatabase t) =
        Some (t\<lparr>calls := calls t @ [Threw (Reason 3)]\<rparr>)"
proof -
  define s where "s = \<lparr>env_MONGODB_URL = Some ''mongodb://db'', MONGODB_URL = Some ''mongodb://db'',
             cached = \<lparr>conn = None, promise = Some 0\<rparr>, heap = [Rejected (Reason 3)],
             connect_log = [(''mongodb://db'', \<lparr>dbName = ''Imaginify'', bufferCommands = False\<rparr>)],
             calls = [Threw (Reason 3), Awaiting 0]\<rparr>"
  define t where "t = s\<lparr>calls := [Threw (Reason 3), Threw (Reason 3), Awaiting 0]\<rparr>"
  have h1: "run [Call, Call, Settle 0 (Inl (Reason 3)), Resume 0] (boot (Some ''mongodb://db'')) = Some s"
    by (simp add: s_def boot_def initial_cache_def connectToDatabase_def mongoose_connect_def
        connect_options_def settle_def resume_def)
  have h2: "promise (cached s) = Some 0" by (simp add: s_def)
  have h3: "heap s ! 0 = Rejected (Reason 3)" by (simp add: s_def)
  have h4: "run [Resume 1, Call] s = Some t"
    by (simp add: s_def t_def connectToDatabase_def resume_def)
  from failed_attempt_never_cleared [OF h1 h2 h3 h4] h1 h2 h3 h4 show ?thesis
    unfolding Let_def s_def [symmetric] t_def [symmetric] by blast
qed

text \<open>
  C5. When the driver rejects the connection attempt with a value \<open>x\<close>, every invocation
  found suspended afterwards, whether it joined before or after the rejection, resumes by
  throwing exactly \<open>x\<close>; nothing else in the process changes at that resumption, and
  \<open>mongoose.connect\<close> is not called again.
\<close>

theorem rejection_propagates_verbatim:
  assumes "run es (boot env) = Some s" and "settle p (Inl x) s = Some s1"
    and "run fs s1 = Some t"
    and "i < length (calls t)" and "calls t ! i = Awaiting q"
  shows "resume i t = Some (t\<lparr>calls := (calls t)[i := Threw x]\<rparr>) \<and>
         connect_log t = connect_log s"
proof -
  from consistent_boot assms(1) have cs: "consistent env s" by (rule consistent_run)
  from assms(2) have p: "p < length (heap s)" "heap s ! p = Pending"
    and s1: "s1 = s\<lparr>heap := (heap s)[p := Rejected x]\<rparr>"
    by (auto simp: settle_def split: if_splits)
  from cs p have ps: "promise (cached s) = Some 0" "p = 0"
    by (cases "promise (cached s)"; auto simp: consistent_def)+
  from assms(2) have f: "fire (Settle p (Inl x)) s = Some s1" by simp
  from cs f have c1: "consistent env s1" by (rule consistent_fire)
  from c1 assms(3) have ct: "consistent env t" by (rule consistent_run)
  from s1 ps have p1: "promise (cached s1) = Some 0" by simp
  from s1 p ps(2) have h1: "heap s1 ! 0 = Rejected x" by simp
  then have "heap s1 ! 0 \<noteq> Pending" by simp
  with assms(3) p1 have "heap t ! 0 = heap s1 ! 0" by (rule settled_kept_run)
  with h1 have ht: "heap t ! 0 = Rejected x" by simp
  from assms(3) p1 have pt: "promise (cached t) = Some 0" by (rule promise_kept_run)
  from ct assms(4,5) have "promise (cached t) = Some q" by (rule awaiting_recorded)
  with pt have q: "q = 0" by simp
  from ct pt have "length (heap t) = 1" using recorded_promise_is_first by blast
  with assms(4,5) q ht have "resume i t = Some (t\<lparr>calls := (calls t)[i := Threw x]\<rparr>)"
    by (intro resume_rejected) simp_all
  moreover from assms(3) p1 have "connect_log t = connect_log s1" by (rule log_kept_run)
  with s1 have "connect_log t = connect_log s" by simp
  ultimately show ?thesis by simp
qed

theorem rejection_propagates_verbatim_witness:
  "let s = \<lparr>env_MONGODB_URL = Some ''mongodb://db'', MONGODB_URL = Some ''mongodb://db'',
             cached = \<lparr>conn = None, promise = Some 0\<rparr>, heap = [Pending],
             connect_log = [(''mongodb://db'', \<lparr>dbName = ''Imaginify'', bufferCommands = False\<rparr>)],
             calls = [Awaiting 0, Awaiting 0]\<rparr>;
       s1 = s\<lparr>heap := [Rejected (Error ''ECONNREFUSED'')]\<rparr>;
       t = s1\<lparr>calls := [Threw (Error ''ECONNREFUSED''), Awaiting 0, Awaiting 0]\<rparr>
   in run [Call, Call] (boot (Some ''mongodb://db'')) = Some s \<and>
      settle 0 (Inl (Error ''ECONNREFUSED'')) s = Some s1 \<and>
      run [Resume 0, Call] s1 = Some t \<and>
      1 < length (calls t) \<and> calls t ! 1 = Awaiting 0 \<and>
      resume 1 t = Some (t\<lparr>calls := (calls t)[1 := Threw (Error ''ECONNREFUSED'')]\<rparr>) \<and>
      connect_log t = connect_log s"
proof -
  define s where "s = \<lparr>env_MONGODB_URL = Some ''mongodb://db'', MONGODB_URL = Some ''mongodb://db'',
             cached = \<lparr>conn = None, promise = Some 0\<rparr>, heap = [Pending],
             connect_log = [(''mongodb://db'', \<lparr>dbName = ''Imaginify'', bufferCommands = False\<rparr>)],
             calls = [Awaiting 0, Awaiting 0]\<rparr>"
  define s1 where "s1 = s\<lparr>heap := [Rejected (Error ''ECONNREFUSED'')]\<rparr>"
  define t where "t = s1\<lparr>calls := [Threw (Error ''ECONNREFUSED''), Awaiting 0, Awaiting 0]\<rparr>"
  have h1: "run [Call, Call] (boot (Some ''mongodb://db'')) = Some s"
    by (simp add: s_def boot_def initial_cache_def connectToDatabase_def mongoose_connect_def
        connect_options_def)
  have h2: "settle 0 (Inl (Error ''ECONNREFUSED'')) s = Some s1"
    by (simp add: s_def s1_def settle_def)
  have h3: "run [Resume 0, Call] s1 = Some t"
    by (simp add: s_def s1_def t_def connectToDatabase_def resume_def)
  have h4: "1 < length (calls t)" by (simp add: t_def s1_def s_def)
  have h5: "calls t ! 1 = Awaiting 0" by (simp add: t_def s1_def s_def)
  from rejection_propagates_verbatim [OF h1 h2 h3 h4 h5] h1 h2 h3 h4 h5 show ?thesis
    unfolding Let_def s_def [symmetric] s1_def [symmetric] t_def [symmetric] by blast
qed

text \<open>
  C6. \<open>cached.conn\<close> is null in a fresh process and stays null while no promise is
  fulfilled; once it holds a client it holds that same client after anything that happens
  later. This includes the resumption of invocations that suspended before the first
  resolution: they execute \<open>cached.conn = await cached.promise\<close> too, and store the
  client that is already there.
\<close>

theorem conn_never_reassigned:
  assumes "run es (boot env) = Some s" and "run fs s = Some t"
  shows "conn (cached (boot env)) = None \<and>
         ((\<forall>c. Fulfilled c \<notin> set (heap s)) \<longrightarrow> conn (cached s) = None) \<and>
         (\<forall>c. conn (cached s) = Some c \<longrightarrow> conn (cached t) = Some c)"
proof -
  from consistent_boot assms(1) have cs: "consistent env s" by (rule consistent_run)
  have "conn (cached (boot env)) = None"
    by (simp add: boot_def initial_cache_def)
  moreover have "conn (cached s) = None" if no: "\<forall>c. Fulfilled c \<notin> set (heap s)"
  proof (cases "conn (cached s)")
    case None
    then show ?thesis .
  next
    case (Some c)
    with cs have "promise (cached s) \<noteq> None" "heap s ! 0 = Fulfilled c"
      by (auto simp: consistent_def)
    moreover from this(1) cs have "length (heap s) = 1" by (auto simp: consistent_def)
    ultimately have "Fulfilled c \<in> set (heap s)" by (metis nth_mem zero_less_one)
    with no show ?thesis by blast
  qed
  moreover have "\<forall>c. conn (cached s) = Some c \<longrightarrow> conn (cached t) = Some c"
    using conn_kept_run [OF cs assms(2)] by blast
  ultimately show ?thesis by blast
qed

theorem conn_never_reassigned_witness:
  "let s = \<lparr>env_MONGODB_URL = Some ''mongodb://db'', MONGODB_URL = Some ''mongodb://db'',
             cached = \<lparr>conn = Some 7, promise = Some 0\<rparr>, heap = [Fulfilled 7],
             connect_log = [(''mongodb://db'', \<lparr>dbName = ''Imaginify'', bufferCommands = False\<rparr>)],
             calls = [Returned 7, Awaiting 0]\<rparr>;
       t = s\<lparr>calls := [Returned 7, Returned 7]\<rparr>
   in run [Call, Call, Settle 0 (Inr 7), Resume 0] (boot (Some ''mongodb://db'')) = Some s \<and>
      run [Resume 1] s = Some t \<and>
      conn (cached (boot (Some ''mongodb://db''))) = None \<and>
      conn (cached s) = Some 7 \<and> conn (cached t) = Some 7"
proof -
  define s where "s = \<lparr>env_MONGODB_URL = Some ''mongodb://db'', MONGODB_URL = Some ''mongodb://db'',
             cached = \<lparr>conn = Some 7, promise = Some 0\<rparr>, heap = [Fulfilled 7],
             connect_log = [(''mongodb://db'', \<lparr>dbName = ''Imaginify'', bufferCommands = False\<rparr>)],
             calls = [Returned 7, Awaiting 0]\<rparr>"
  define t where "t = s\<lparr>calls := [Returned 7, Returned 7]\<rparr>"
  have h1: "run [Call, Call, Settle 0 (Inr 7), Resume 0] (boot (Some ''mongodb://db'')) = Some s"
    by (simp add: s_def boot_def initial_cache_def connectToDatabase_def mongoose_connect_def
        connect_options_def settle_def resume_def)
  have h2: "run [Resume 1] s = Some t"
    by (simp add: s_def t_def resume_def)
  have h3: "conn (cached s) = Some 7" by (simp add: s_def)
  from conn_never_reassigned [OF h1 h2] h1 h2 h3 show ?thesis
    unfolding Let_def s_def [symmetric] t_def [symmetric] by blast
qed

text \<open>
  C7. Every call of \<open>mongoose.connect\<close> made in a run was made with the configured
  connection string and the options \<open>{dbName: 'Imaginify', bufferCommands: false}\<close>; and
  a call of \<open>connectToDatabase\<close> either leaves the log of connect calls alone or appends
  exactly that pair.
\<close>

theorem connect_arguments:
  assumes "run es (boot env) = Some s"
  shows "(\<forall>(uri, opts) \<in> set (connect_log s).
            env = Some uri \<and> dbName opts = ''Imaginify'' \<and> bufferCommands opts = False) \<and>
         (connect_log (connectToDatabase s) = connect_log s \<or>
          (\<exists>uri. env = Some uri \<and>
             connect_log (connectToDatabase s) =
               connect_log s @ [(uri, \<lparr>dbName = ''Imaginify'', bufferCommands = False\<rparr>)]))"
proof -
  from consistent_boot assms have cs: "consistent env s" by (rule consistent_run)
  then have url: "MONGODB_URL s = env" by (simp add: consistent_def)
  have "\<forall>(uri, opts) \<in> set (connect_log s).
      env = Some uri \<and> dbName opts = ''Imaginify'' \<and> bufferCommands opts = False"
  proof (cases "promise (cached s)")
    case None
    with cs show ?thesis by (simp add: consistent_def)
  next
    case (Some p)
    with cs have "\<not> falsy env" "connect_log s = [(the env, connect_options)]"
      by (auto simp: consistent_def)
    then show ?thesis by (cases env) (auto simp: connect_options_def)
  qed
  moreover have "connect_log (connectToDatabase s) = connect_log s \<or>
      (\<exists>uri. env = Some uri \<and>
         connect_log (connectToDatabase s) =
           connect_log s @ [(uri, \<lparr>dbName = ''Imaginify'', bufferCommands = False\<rparr>)])"
    using url
    by (cases env)
      (auto simp: connectToDatabase_def mongoose_connect_def connect_options_def
        split: option.splits)
  ultimately show ?thesis by blast
qed

theorem connect_arguments_witness:
  "let s = \<lparr>env_MONGODB_URL = Some ''mongodb://db'', MONGODB_URL = Some ''mongodb://db'',
             cached = \<lparr>conn = None, promise = None\<rparr>, heap = [], connect_log = [],
             calls = []\<rparr>
   in run [] (boot (Some ''mongodb://db'')) = Some s \<and>
      connect_log (connectToDatabase s) =
        connect_log s @ [(''mongodb://db'', \<lparr>dbName = ''Imaginify'', bufferCommands = False\<rparr>)]"
proof -
  define s where "s = \<lparr>env_MONGODB_URL = Some ''mongodb://db'', MONGODB_URL = Some ''mongodb://db'',
             cached = \<lparr>conn = None, promise = None\<rparr>, heap = ([] :: promise_state list),
             connect_log = ([] :: (string \<times> ConnectOptions) list),
             calls = ([] :: invocation list)\<rparr>"
  have h1: "run [] (boot (Some ''mongodb://db'')) = Some s"
    by (simp add: s_def boot_def initial_cache_def)
  have h2: "connect_log (connectToDatabase s) \<noteq> connect_log s"
    by (simp add: s_def connectToDatabase_def mongoose_connect_def)
  from connect_arguments [OF h1] h1 h2 show ?thesis
    unfolding Let_def s_def [symmetric] by auto
qed

text \<open>
  C8. In any state whatever, if the synchronous part of \<open>connectToDatabase\<close> ends by
  throwing \<open>Error('Missing MONGODB_URL')\<close>, then the process is unchanged apart from the
  record of that invocation: \<open>cached.conn\<close> and \<open>cached.promise\<close> are what they were,
  no promise was created and \<open>mongoose.connect\<close> was not called.
\<close>

theorem config_error_leaves_cache:
  assumes "calls (connectToDatabase s) = calls s @ [Threw (Error ''Missing MONGODB_URL'')]"
  shows "connectToDatabase s = s\<lparr>calls := calls s @ [Threw (Error ''Missing MONGODB_URL'')]\<rparr> \<and>
         cached (connectToDatabase s) = cached s \<and>
         heap (connectToDatabase s) = heap s \<and>
         connect_log (connectToDatabase s) = connect_log s"
proof (cases "conn (cached s)")
  case (Some c)
  with assms show ?thesis by (simp add: call_cached)
next
  case None
  show ?thesis
  proof (cases "falsy (MONGODB_URL s)")
    case True
    with None show ?thesis by (simp add: call_missing)
  next
    case False
    with None assms show ?thesis
      by (cases "promise (cached s)")
        (auto simp: connectToDatabase_def mongoose_connect_def)
  qed
qed

theorem config_error_leaves_cache_witness:
  "calls (connectToDatabase (boot None)) =
     calls (boot None) @ [Threw (Error ''Missing MONGODB_URL'')] \<and>
   cached (connectToDatabase (boot None)) = cached (boot None) \<and>
   cached (connectToDatabase (boot None)) = \<lparr>conn = None, promise = None\<rparr>"
proof -
  have h: "calls (connectToDatabase (boot None)) =
      calls (boot None) @ [Threw (Error ''Missing MONGODB_URL'')]"
    by (simp add: boot_def initial_cache_def connectToDatabase_def)
  have b: "cached (boot None) = \<lparr>conn = None, promise = None\<rparr>"
    by (simp add: boot_def initial_cache_def)
  from config_error_leaves_cache [OF h] h b show ?thesis by simp
qed

text \<open>
  C9. In every reachable state, if \<open>cached.conn\<close> holds a client \<open>c\<close> then
  \<open>cached.promise\<close> holds a promise, and that promise is fulfilled with \<open>c\<close>.
\<close>

theorem cache_record_invariant:
  assumes "run es (boot env) = Some s" and "conn (cached s) = Some c"
  shows "\<exists>p. promise (cached s) = Some p \<and> p < length (heap s) \<and> heap s ! p = Fulfilled c"
proof -
  from consistent_boot assms(1) have cs: "consistent env s" by (rule consistent_run)
  with assms(2) obtain p where p: "promise (cached s) = Some p"
    by (cases "promise (cached s)") (auto simp: consistent_def)
  with cs have "p = 0" "length (heap s) = 1" by (auto simp: consistent_def)
  moreover from cs assms(2) have "heap s ! 0 = Fulfilled c" by (simp add: consistent_def)
  ultimately show ?thesis using p by simp
qed

theorem cache_record_invariant_witness:
  "let s = \<lparr>env_MONGODB_URL = Some ''mongodb://db'', MONGODB_URL = Some ''mongodb://db'',
             cached = \<lparr>conn = Some 7, promise = Some 0\<rparr>, heap = [Fulfilled 7],
             connect_log = [(''mongodb://db'', \<lparr>dbName = ''Imaginify'', bufferCommands = False\<rparr>)],
             calls = [Returned 7]\<rparr>
   in run [Call, Settle 0 (Inr 7), Resume 0] (boot (Some ''mongodb://db'')) = Some s \<and>
      conn (cached s) = Some 7 \<and>
      promise (cached s) = Some 0 \<and> 0 < length (heap s) \<and> heap s ! 0 = Fulfilled 7"
proof -
  define s where "s = \<lparr>env_MONGODB_URL = Some ''mongodb://db'', MONGODB_URL = Some ''mongodb://db'',
             cached = \<lparr>conn = Some 7, promise = Some 0\<rparr>, heap = [Fulfilled 7],
             connect_log = [(''mongodb://db'', \<lparr>dbName = ''Imaginify'', bufferCommands = False\<rparr>)],
             calls = [Returned 7]\<rparr>"
  have h1: "run [Call, Settle 0 (Inr 7), Resume 0] (boot (Some ''mongodb://db'')) = Some s"
    by (simp add: s_def boot_def initial_cache_def connectToDatabase_def mongoose_connect_def
        connect_options_def settle_def resume_def)
  have h2: "conn (cached s) = Some 7" by (simp add: s_def)
  have h3: "promise (cached s) = Some 0" by (simp add: s_def)
  from cache_record_invariant [OF h1 h2] h1 h2 h3 show ?thesis
    unfolding Let_def s_def [symmetric] by auto
qed

text \<open>
  C10. Two runs from the same boot value whose events agree once the assignments to
  \<open>process.env.MONGODB_URL\<close> are left out end in the same state, up to the present value
  of the variable: same cache, same promises, same connect calls with the same arguments,
  same outcome of every invocation. The module constant is the boot value throughout.
\<close>

theorem url_read_once_at_load:
  assumes "run es1 (boot env) = Some s1"
    and "filter (\<lambda>e. \<not> is_SetEnv e) es1 = filter (\<lambda>e. \<not> is_SetEnv e) es2"
  shows "map_option forget_env (run es2 (boot env)) = Some (forget_env s1) \<and>
         MONGODB_URL s1 = env"
proof -
  have "map_option forget_env (run es2 (boot env)) =
      run (filter (\<lambda>e. \<not> is_SetEnv e) es2) (forget_env (boot env))"
    by (rule forget_env_run)
  also have "\<dots> = run (filter (\<lambda>e. \<not> is_SetEnv e) es1) (forget_env (boot env))"
    by (simp only: assms(2))
  also have "\<dots> = map_option forget_env (run es1 (boot env))"
    by (rule forget_env_run [symmetric])
  also have "\<dots> = Some (forget_env s1)"
    by (simp add: assms(1))
  finally have "map_option forget_env (run es2 (boot env)) = Some (forget_env s1)" .
  moreover from consistent_boot assms(1) have "consistent env s1" by (rule consistent_run)
  then have "MONGODB_URL s1 = env" by (simp add: consistent_def)
  ultimately show ?thesis by simp
qed

theorem url_read_once_at_load_witness:
  "let s1 = \<lparr>env_MONGODB_URL = Some ''mongodb://db'', MONGODB_URL = None,
              cached = \<lparr>conn = None, promise = None\<rparr>, heap = [], connect_log = [],
              calls = [Threw (Error ''Missing MONGODB_URL''), Threw (Error ''Missing MONGODB_URL'')]\<rparr>
   in run [Call, SetEnv (Some ''mongodb://db''), Call] (boot None) = Some s1 \<and>
      filter (\<lambda>e. \<not> is_SetEnv e) [Call, SetEnv (Some ''mongodb://db''), Call] =
        filter (\<lambda>e. \<not> is_SetEnv e) [Call, Call] \<and>
      map_option forget_env (run [Call, Call] (boot None)) = Some (forget_env s1) \<and>
      MONGODB_URL s1 = None"
proof -
  define s1 where "s1 = \<lparr>env_MONGODB_URL = Some ''mongodb://db'', MONGODB_URL = None,
              cached = \<lparr>conn = None, promise = None\<rparr>, heap = ([] :: promise_state list),
              connect_log = ([] :: (string \<times> ConnectOptions) list),
              calls = [Threw (Error ''Missing MONGODB_URL''), Threw (Error ''Missing MONGODB_URL'')]\<rparr>"
  have h1: "run [Call, SetEnv (Some ''mongodb://db''), Call] (boot None) = Some s1"
    by (simp add: s1_def boot_def initial_cache_def connectToDatabase_def)
  have h2: "filter (\<lambda>e. \<not> is_SetEnv e) [Call, SetEnv (Some ''mongodb://db''), Call] =
        filter (\<lambda>e. \<not> is_SetEnv e) [Call, Call]"
    by simp
  from url_read_once_at_load [OF h1 h2] h1 h2 show ?thesis
    unfolding Let_def s1_def [symmetric] by blast
qed

end
